theory Spec2Isabelle
  imports Main "HOL-Library.Word"
begin

section \<open>Distributed-memory AMG preconditioner (amgcl/mpi/amg.hpp)\<close>

text \<open>
  The class template \<^verbatim>\<open>amgcl::mpi::amg<Backend, Coarsening, Relax>\<close> builds a
  hierarchy of levels from a distributed matrix (\<^verbatim>\<open>init\<close>) and runs a recursive
  multilevel cycle over it (\<^verbatim>\<open>cycle\<close>, \<^verbatim>\<open>apply\<close>).  Its three template
  arguments are collaborators whose code is not part of the file: they are
  parameters of the model.  Every call the code makes to one of them is kept as
  a value of type \<open>call\<close>, executed on an explicit store of vectors and appended
  to a log, so that both what the code computes and which calls it performs,
  in which order, can be stated.
\<close>

subsection \<open>Errors\<close>

text \<open>
  \<^verbatim>\<open>amgcl::precondition\<close> and \<^verbatim>\<open>mpi::precondition\<close> throw with the given
  message when their condition is false.  Dereferencing a null
  \<^verbatim>\<open>boost::shared_ptr\<close> and advancing the end iterator of the level list are
  failures of the program as well; the model returns them as values.
\<close>

datatype error =
    Precondition_failed string
  | Null_pointer
  | Past_the_end

fun and_then :: "error + 'a \<Rightarrow> ('a \<Rightarrow> error + 'b) \<Rightarrow> error + 'b" where
  "and_then (Inl e) k = Inl e"
| "and_then (Inr v) k = k v"

subsection \<open>Parameters\<close>

text \<open>
  \<^verbatim>\<open>struct params\<close>: six \<^verbatim>\<open>unsigned\<close> fields.  The two nested parameter sets
  (\<^verbatim>\<open>coarsening\<close>, \<^verbatim>\<open>relax\<close>) are only handed on to the collaborators and are
  part of them in the model.
\<close>

record params =
  coarse_enough :: "32 word"
  max_levels :: "32 word"
  npre :: "32 word"
  npost :: "32 word"
  ncycle :: "32 word"
  pre_cycles :: "32 word"

text \<open>The default constructor \<^verbatim>\<open>params()\<close>.\<close>

definition params_default :: params where
  "params_default =
     \<lparr>coarse_enough = 1024, max_levels = 4294967295,
      npre = 1, npost = 1, ncycle = 1, pre_cycles = 1\<rparr>"

text \<open>
  Modelled from the spec: the macro \<^verbatim>\<open>AMGCL_PARAMS_IMPORT_VALUE(p, name)\<close> is
  not in the source.  Every parameter has a default and can be overridden: the
  macro reads \<open>name\<close> from the tree and takes the value of \<^verbatim>\<open>params()\<close> when
  the key is absent.  The tree is a lookup from keys to values.
\<close>

definition import_value :: "(string \<Rightarrow> 32 word option) \<Rightarrow> string \<Rightarrow> 32 word \<Rightarrow> 32 word" where
  "import_value p name dflt = (case p name of None \<Rightarrow> dflt | Some v \<Rightarrow> v)"

text \<open>
  The constructor \<^verbatim>\<open>params(const ptree &p)\<close>: the six imports, then the
  check of \<open>max_levels\<close>.
\<close>

definition params_ptree :: "(string \<Rightarrow> 32 word option) \<Rightarrow> error + params" where
  "params_ptree p =
     (let prm = \<lparr>coarse_enough = import_value p ''coarse_enough'' (coarse_enough params_default),
                 max_levels = import_value p ''max_levels'' (max_levels params_default),
                 npre = import_value p ''npre'' (npre params_default),
                 npost = import_value p ''npost'' (npost params_default),
                 ncycle = import_value p ''ncycle'' (ncycle params_default),
                 pre_cycles = import_value p ''pre_cycles'' (pre_cycles params_default)\<rparr>
      in if max_levels prm > 0 then Inr prm
         else Inl (Precondition_failed ''max_levels should be positive''))"

subsection \<open>Matrices, vectors and the collaborators\<close>

text \<open>
  Modelled from the spec: the class \<^verbatim>\<open>distributed_matrix<Backend>\<close> is not in
  the source.  The code reads its global row and column counts and its local
  row count; the contents are opaque.  The counts are \<^verbatim>\<open>ptrdiff_t\<close> values that
  are never negative, compared with \<^verbatim>\<open>unsigned\<close> parameters after the usual
  conversion to the wider type, so the comparisons are those of the numbers.
\<close>

record 'e matrix =
  glob_rows :: nat
  glob_cols :: nat
  loc_rows :: nat
  entries :: 'e

text \<open>
  Vectors live in a store.  A level owns three of them (\<^verbatim>\<open>f\<close>, \<^verbatim>\<open>u\<close>, \<^verbatim>\<open>t\<close>,
  created by its constructor and named here by the position of the level); the
  vectors of a caller are the \<open>Arg\<close> ones.
\<close>

datatype vref = Arg nat | Lvl_f nat | Lvl_u nat | Lvl_t nat

type_synonym 'a vecs = "vref \<Rightarrow> 'a list"

text \<open>\<^verbatim>\<open>math::zero<scalar_type>()\<close> and \<^verbatim>\<open>math::identity<scalar_type>()\<close>.\<close>

datatype scalar = Scalar_zero | Scalar_identity

text \<open>
  The collaborators: \<^verbatim>\<open>Backend\<close> (\<open>create_vector\<close>, \<open>residual\<close>, \<open>spmv\<close>),
  \<^verbatim>\<open>Relax<Backend>\<close> (its constructor \<open>relax_new\<close>, \<open>apply_pre\<close>, \<open>apply_post\<close>)
  and \<^verbatim>\<open>Coarsening\<close> (\<open>transfer_operators\<close>, \<open>coarse_operator\<close>).  Each function
  receives the values the code passes and returns the vectors it may write:
  \<open>residual rhs A x t\<close> the new \<open>t\<close>, \<open>spmv alpha M v beta y\<close> the new \<open>y\<close>,
  \<open>apply_pre r A rhs x t\<close> the new \<open>x\<close> and \<open>t\<close>.
\<close>

record ('a, 'e, 'r) collab =
  create_vector :: "nat \<Rightarrow> 'a list"
  residual :: "'a list \<Rightarrow> 'e matrix \<Rightarrow> 'a list \<Rightarrow> 'a list \<Rightarrow> 'a list"
  spmv :: "scalar \<Rightarrow> 'e matrix \<Rightarrow> 'a list \<Rightarrow> scalar \<Rightarrow> 'a list \<Rightarrow> 'a list"
  relax_new :: "'e matrix \<Rightarrow> 'r"
  apply_pre :: "'r \<Rightarrow> 'e matrix \<Rightarrow> 'a list \<Rightarrow> 'a list \<Rightarrow> 'a list \<Rightarrow> 'a list \<times> 'a list"
  apply_post :: "'r \<Rightarrow> 'e matrix \<Rightarrow> 'a list \<Rightarrow> 'a list \<Rightarrow> 'a list \<Rightarrow> 'a list \<times> 'a list"
  transfer_operators :: "'e matrix \<Rightarrow> 'e matrix \<times> 'e matrix"
  coarse_operator :: "'e matrix \<Rightarrow> 'e matrix \<Rightarrow> 'e matrix \<Rightarrow> 'e matrix"

text \<open>
  Modelled from the spec: \<^verbatim>\<open>backend::clear\<close> and \<^verbatim>\<open>backend::copy\<close> are not in the
  source.  \<open>clear\<close> sets every entry of a vector to zero; \<open>copy\<close> makes the
  target equal to the origin.
\<close>

definition clear :: "'a::zero list \<Rightarrow> 'a list" where
  "clear v = replicate (length v) 0"

definition copy :: "'a list \<Rightarrow> 'a list \<Rightarrow> 'a list" where
  "copy src dst = src"

subsection \<open>Calls to the collaborators\<close>

datatype ('e, 'r) call =
    Relax_pre 'r "'e matrix" vref vref vref
  | Relax_post 'r "'e matrix" vref vref vref
  | Residual vref "'e matrix" vref vref
  | Spmv scalar "'e matrix" vref scalar vref
  | Clear vref
  | Copy vref vref

fun exec :: "('a::zero, 'e, 'r) collab \<Rightarrow> ('e, 'r) call \<Rightarrow> 'a vecs \<Rightarrow> 'a vecs" where
  "exec co (Relax_pre r A rhs x t) vs =
     (case apply_pre co r A (vs rhs) (vs x) (vs t) of (x', t') \<Rightarrow> vs(t := t', x := x'))"
| "exec co (Relax_post r A rhs x t) vs =
     (case apply_post co r A (vs rhs) (vs x) (vs t) of (x', t') \<Rightarrow> vs(t := t', x := x'))"
| "exec co (Residual rhs A x t) vs = vs(t := residual co (vs rhs) A (vs x) (vs t))"
| "exec co (Spmv alpha M v beta y) vs = vs(y := spmv co alpha M (vs v) beta (vs y))"
| "exec co (Clear x) vs = vs(x := clear (vs x))"
| "exec co (Copy src dst) vs = vs(dst := copy (vs src) (vs dst))"

record ('a, 'e, 'r) state =
  vecs :: "'a vecs"
  calls :: "('e, 'r) call list"

definition perform ::
  "('a::zero, 'e, 'r) collab \<Rightarrow> ('e, 'r) call \<Rightarrow> ('a, 'e, 'r) state \<Rightarrow> ('a, 'e, 'r) state" where
  "perform co c s = \<lparr>vecs = exec co c (vecs s), calls = calls s @ [c]\<rparr>"

subsection \<open>Levels\<close>

text \<open>
  \<^verbatim>\<open>struct level\<close>.  \<open>A\<close> is never null in a level made by the constructor
  \<^verbatim>\<open>level(A, prm, bprm)\<close>, which dereferences it; \<open>P\<close> and \<open>R\<close> start null.
  \<^verbatim>\<open>move_to_backend\<close> converts the storage of the matrices in place and changes
  nothing the hierarchy logic reads: the flag \<open>on_backend\<close> records that it ran
  on the level.
\<close>

record ('e, 'r) level =
  level_A :: "'e matrix"
  level_P :: "'e matrix option"
  level_R :: "'e matrix option"
  level_f :: vref
  level_u :: vref
  level_t :: vref
  level_relax :: 'r
  on_backend :: bool

definition level_new ::
  "('a, 'e, 'r) collab \<Rightarrow> 'e matrix \<Rightarrow> nat \<Rightarrow> 'a vecs \<Rightarrow> ('e, 'r) level \<times> 'a vecs" where
  "level_new co A k vs =
     (\<lparr>level_A = A, level_P = None, level_R = None,
       level_f = Lvl_f k, level_u = Lvl_u k, level_t = Lvl_t k,
       level_relax = relax_new co A, on_backend = False\<rparr>,
      vs(Lvl_f k := create_vector co (loc_rows A),
         Lvl_u k := create_vector co (loc_rows A),
         Lvl_t k := create_vector co (loc_rows A)))"

definition step_down ::
  "('a, 'e, 'r) collab \<Rightarrow> ('e, 'r) level \<Rightarrow> ('e, 'r) level \<times> 'e matrix option" where
  "step_down co l =
     (case transfer_operators co (level_A l) of (P, R) \<Rightarrow>
        let l' = l\<lparr>level_P := Some P, level_R := Some R\<rparr>
        in if glob_cols P = 0 then (l', None)
           else (l', Some (coarse_operator co (level_A l) P R)))"

definition move_to_backend :: "('e, 'r) level \<Rightarrow> ('e, 'r) level" where
  "move_to_backend l = l\<lparr>on_backend := True\<rparr>"

subsection \<open>Building the hierarchy\<close>

text \<open>
  The \<^verbatim>\<open>while\<close> loop of \<^verbatim>\<open>init\<close>, from the state it has at the loop head: the
  pending matrix \<open>A\<close>, the list of levels and the store.  It returns the state
  at the loop exit, where \<open>A\<close> may be null.
\<close>

function init_loop ::
  "('a, 'e, 'r) collab \<Rightarrow> params \<Rightarrow> 'e matrix \<Rightarrow> ('e, 'r) level list \<Rightarrow> 'a vecs
     \<Rightarrow> 'e matrix option \<times> ('e, 'r) level list \<times> 'a vecs" where
  "init_loop co prm A levels vs =
     (if glob_rows A > unat (coarse_enough prm) \<and> length levels < unat (max_levels prm) then
        (case level_new co A (length levels) vs of (l, vs1) \<Rightarrow>
           if length (levels @ [l]) \<ge> unat (max_levels prm) then (Some A, levels @ [l], vs1)
           else
             (case step_down co l of (l', A') \<Rightarrow>
                (case A' of
                   None \<Rightarrow> (None, levels @ [move_to_backend l'], vs1)
                 | Some A'' \<Rightarrow> init_loop co prm A'' (levels @ [move_to_backend l']) vs1)))
      else (Some A, levels, vs))"
  by pat_completeness auto
termination
  by (relation "measure (\<lambda>(co, prm, A, levels, vs). unat (max_levels prm) - length levels)") auto

declare init_loop.simps [simp del]

text \<open>The statement after the loop: a pending matrix becomes the last level.\<close>

definition init_finish ::
  "('a, 'e, 'r) collab \<Rightarrow> 'e matrix option \<times> ('e, 'r) level list \<times> 'a vecs
     \<Rightarrow> ('e, 'r) level list \<times> 'a vecs" where
  "init_finish co st =
     (case st of (A', levels, vs) \<Rightarrow>
        (case A' of
           None \<Rightarrow> (levels, vs)
         | Some A \<Rightarrow>
             (case level_new co A (length levels) vs of (l, vs1) \<Rightarrow>
                (levels @ [move_to_backend l], vs1))))"

definition init ::
  "('a, 'e, 'r) collab \<Rightarrow> params \<Rightarrow> 'e matrix \<Rightarrow> 'a vecs
     \<Rightarrow> error + ('e, 'r) level list \<times> 'a vecs" where
  "init co prm A vs =
     (if glob_rows A = glob_cols A then Inr (init_finish co (init_loop co prm A [] vs))
      else Inl (Precondition_failed ''Matrix should be square!''))"

text \<open>The object: its parameters and its list of levels.\<close>

record ('e, 'r) amg =
  amg_prm :: params
  amg_levels :: "('e, 'r) level list"

definition amg_new ::
  "('a, 'e, 'r) collab \<Rightarrow> params \<Rightarrow> 'e matrix \<Rightarrow> 'a vecs \<Rightarrow> error + ('e, 'r) amg \<times> 'a vecs" where
  "amg_new co prm A vs =
     and_then (init co prm A vs)
       (\<lambda>(levels, vs'). Inr (\<lparr>amg_prm = prm, amg_levels = levels\<rparr>, vs'))"

subsection \<open>Loops\<close>

text \<open>
  \<^verbatim>\<open>for (i = 0; i < n; ++i) body\<close> from the value \<open>i\<close> of the counter.  The bound
  is an \<^verbatim>\<open>unsigned\<close> parameter and the counter stays below it, so the counter
  does not wrap.  A failure of the body ends the loop.
\<close>

function for_loop :: "nat \<Rightarrow> nat \<Rightarrow> ('s \<Rightarrow> error + 's) \<Rightarrow> 's \<Rightarrow> error + 's" where
  "for_loop i n body s =
     (if i < n then and_then (body s) (for_loop (Suc i) n body) else Inr s)"
  by pat_completeness auto
termination
  by (relation "measure (\<lambda>(i, n, body, s). n - i)") auto

declare for_loop.simps [simp del]

lemma and_then_cong [fundef_cong]:
  "r = r' \<Longrightarrow> (\<And>v. r' = Inr v \<Longrightarrow> k v = k' v) \<Longrightarrow> and_then r k = and_then r' k'"
  by (cases r') auto

lemma for_loop_cong [fundef_cong]:
  assumes "i = i'" "n = n'" "s = s'" "\<And>v. body v = body' v"
  shows "for_loop i n body s = for_loop i' n' body' s'"
proof -
  have "body = body'" using assms(4) by (rule ext)
  with assms(1-3) show ?thesis by simp
qed

subsection \<open>The cycle\<close>

text \<open>
  The private \<^verbatim>\<open>cycle(lvl, rhs, x)\<close>.  The iterator \<open>lvl\<close> is the rest of the
  level list from its position on: \<open>nxt == end\<close> holds when one level is left.
  \<open>rhs\<close> and \<open>x\<close> are references into the store.  \<^verbatim>\<open>*lvl->R\<close> and \<^verbatim>\<open>*lvl->P\<close>
  are dereferenced where the calls that take them are made.
\<close>

fun cycle ::
  "('a::zero, 'e, 'r) collab \<Rightarrow> params \<Rightarrow> ('e, 'r) level list \<Rightarrow> vref \<Rightarrow> vref
     \<Rightarrow> ('a, 'e, 'r) state \<Rightarrow> error + ('a, 'e, 'r) state" where
  "cycle co prm [] rhs x s = Inl Past_the_end"
| "cycle co prm [lvl] rhs x s =
     Inr (perform co (Relax_post (level_relax lvl) (level_A lvl) rhs x (level_t lvl))
           (perform co (Relax_pre (level_relax lvl) (level_A lvl) rhs x (level_t lvl)) s))"
| "cycle co prm (lvl # nxt # rest) rhs x s =
     for_loop 0 (unat (ncycle prm))
       (\<lambda>s0.
          and_then
            (for_loop 0 (unat (npre prm))
               (\<lambda>s. Inr (perform co (Relax_pre (level_relax lvl) (level_A lvl) rhs x (level_t lvl)) s))
               s0)
            (\<lambda>s1.
               let s2 = perform co (Residual rhs (level_A lvl) x (level_t lvl)) s1 in
               (case level_R lvl of
                  None \<Rightarrow> Inl Null_pointer
                | Some r \<Rightarrow>
                    let s3 = perform co (Spmv Scalar_identity r (level_t lvl) Scalar_zero (level_f nxt)) s2;
                        s4 = perform co (Clear (level_u nxt)) s3
                    in and_then (cycle co prm (nxt # rest) (level_f nxt) (level_u nxt) s4)
                         (\<lambda>s5.
                            (case level_P lvl of
                               None \<Rightarrow> Inl Null_pointer
                             | Some p \<Rightarrow>
                                 let s6 = perform co
                                            (Spmv Scalar_identity p (level_u nxt) Scalar_identity x) s5
                                 in for_loop 0 (unat (npost prm))
                                      (\<lambda>s. Inr (perform co
                                                  (Relax_post (level_relax lvl) (level_A lvl) rhs x (level_t lvl)) s))
                                      s6)))))
       s"

text \<open>The public \<^verbatim>\<open>cycle(rhs, x)\<close> and \<^verbatim>\<open>apply(rhs, x)\<close>.\<close>

definition cycle_public ::
  "('a::zero, 'e, 'r) collab \<Rightarrow> ('e, 'r) amg \<Rightarrow> vref \<Rightarrow> vref
     \<Rightarrow> ('a, 'e, 'r) state \<Rightarrow> error + ('a, 'e, 'r) state" where
  "cycle_public co a rhs x s = cycle co (amg_prm a) (amg_levels a) rhs x s"

definition apply_amg ::
  "('a::zero, 'e, 'r) collab \<Rightarrow> ('e, 'r) amg \<Rightarrow> vref \<Rightarrow> vref
     \<Rightarrow> ('a, 'e, 'r) state \<Rightarrow> error + ('a, 'e, 'r) state" where
  "apply_amg co a rhs x s =
     (if pre_cycles (amg_prm a) \<noteq> 0 then
        for_loop 0 (unat (pre_cycles (amg_prm a)))
          (\<lambda>s'. cycle co (amg_prm a) (amg_levels a) rhs x s')
          (perform co (Clear x) s)
      else Inr (perform co (Copy rhs x) s))"

section \<open>The specification's side\<close>

subsection \<open>Sequences of calls\<close>

text \<open>
  \<open>iterate_m k body\<close> runs \<open>body\<close> \<open>k\<close> times in sequence, each run on the state
  the previous one left, and stops at the first failure.  \<open>run co tr\<close> performs
  the calls of \<open>tr\<close> from left to right.
\<close>

primrec iterate_m :: "nat \<Rightarrow> ('s \<Rightarrow> error + 's) \<Rightarrow> 's \<Rightarrow> error + 's" where
  "iterate_m 0 body s = Inr s"
| "iterate_m (Suc k) body s = and_then (iterate_m k body s) body"

definition run ::
  "('a::zero, 'e, 'r) collab \<Rightarrow> ('e, 'r) call list \<Rightarrow> ('a, 'e, 'r) state \<Rightarrow> ('a, 'e, 'r) state" where
  "run co tr s = foldl (\<lambda>s' c. perform co c s') s tr"

text \<open>
  The hierarchy the cycle expects: at least one level, and every level but the
  last has its transfer operators.
\<close>

fun levels_linked :: "('e, 'r) level list \<Rightarrow> bool" where
  "levels_linked [] = False"
| "levels_linked [lvl] = True"
| "levels_linked (lvl # nxt # rest) =
     (level_P lvl \<noteq> None \<and> level_R lvl \<noteq> None \<and> levels_linked (nxt # rest))"

text \<open>
  The calls of one cycle as section 4.2 of the specification lists them: at
  the last level one pre-relaxation and one post-relaxation; at any other
  level, \<open>ncycle\<close> times the seven steps.
\<close>

fun spec_cycle :: "params \<Rightarrow> ('e, 'r) level list \<Rightarrow> vref \<Rightarrow> vref \<Rightarrow> ('e, 'r) call list" where
  "spec_cycle prm [] rhs x = []"
| "spec_cycle prm [L] rhs x =
     [Relax_pre (level_relax L) (level_A L) rhs x (level_t L),
      Relax_post (level_relax L) (level_A L) rhs x (level_t L)]"
| "spec_cycle prm (L # L' # rest) rhs x =
     (case (level_P L, level_R L) of
        (Some p, Some r) \<Rightarrow>
          concat (replicate (unat (ncycle prm))
            (replicate (unat (npre prm)) (Relax_pre (level_relax L) (level_A L) rhs x (level_t L))
             @ [Residual rhs (level_A L) x (level_t L),
                Spmv Scalar_identity r (level_t L) Scalar_zero (level_f L'),
                Clear (level_u L')]
             @ spec_cycle prm (L' # rest) (level_f L') (level_u L')
             @ [Spmv Scalar_identity p (level_u L') Scalar_identity x]
             @ replicate (unat (npost prm)) (Relax_post (level_relax L) (level_A L) rhs x (level_t L))))
      | _ \<Rightarrow> [])"

subsection \<open>Invariants of a hierarchy\<close>

text \<open>
  \<open>linked_to co l A'\<close>: the level \<open>l\<close> holds the transfer operators the coarsening
  returns for its matrix, and \<open>A'\<close> is the coarse operator built from them.
  \<open>chain_ok\<close> asks this of every level and the matrix of its successor.
\<close>

definition linked_to ::
  "('a, 'e, 'r) collab \<Rightarrow> ('e, 'r) level \<Rightarrow> 'e matrix \<Rightarrow> bool" where
  "linked_to co l A' =
     (level_P l = Some (fst (transfer_operators co (level_A l))) \<and>
      level_R l = Some (snd (transfer_operators co (level_A l))) \<and>
      A' = coarse_operator co (level_A l)
             (fst (transfer_operators co (level_A l))) (snd (transfer_operators co (level_A l))))"

fun chain_ok :: "('a, 'e, 'r) collab \<Rightarrow> ('e, 'r) level list \<Rightarrow> bool" where
  "chain_ok co [] = True"
| "chain_ok co [l] = True"
| "chain_ok co (l # l' # ls) = (linked_to co l (level_A l') \<and> chain_ok co (l' # ls))"

text \<open>
  The two shapes of a last level: without transfer operators, or with those
  of a coarsening step that gave a prolongation with no global columns.
\<close>

definition last_plain :: "('e, 'r) level \<Rightarrow> bool" where
  "last_plain l = (level_P l = None \<and> level_R l = None)"

definition last_degenerate :: "('e, 'r) level \<Rightarrow> bool" where
  "last_degenerate l =
     (case (level_P l, level_R l) of (Some p, Some r) \<Rightarrow> glob_cols p = 0 | _ \<Rightarrow> False)"




text \<open>The levels of a construction that returned.\<close>

definition levels_of :: "error + ('e, 'r) level list \<times> 'a vecs \<Rightarrow> ('e, 'r) level list" where
  "levels_of r = (case r of Inl e \<Rightarrow> [] | Inr (lv, vs) \<Rightarrow> lv)"

section \<open>A concrete instance\<close>

text \<open>
  Collaborators small enough to evaluate: the contents of a matrix are the
  number of aggregates its coarsening finds (none for a diagonal matrix), a
  coarse operator halves that number, and vectors hold integers.
\<close>

definition toy_matrix :: "nat \<Rightarrow> nat \<Rightarrow> nat \<Rightarrow> nat matrix" where
  "toy_matrix m n k = \<lparr>glob_rows = m, glob_cols = n, loc_rows = m, entries = k\<rparr>"

definition toy_relax :: "unit \<Rightarrow> nat matrix \<Rightarrow> int list \<Rightarrow> int list \<Rightarrow> int list \<Rightarrow> int list \<times> int list" where
  "toy_relax r A rhs x t = (map2 (\<lambda>b v. v + (b - v) div 2) rhs x, map2 (\<lambda>b v. b - v) rhs x)"

definition toy_scale :: "scalar \<Rightarrow> int \<Rightarrow> int" where
  "toy_scale c v = (case c of Scalar_zero \<Rightarrow> 0 | Scalar_identity \<Rightarrow> v)"

definition toy :: "(int, nat, unit) collab" where
  "toy =
     \<lparr>create_vector = (\<lambda>n. replicate n 0),
      residual = (\<lambda>rhs A x t. map2 (\<lambda>b v. b - v) rhs x),
      spmv = (\<lambda>alpha M v beta y.
                map2 (\<lambda>a b. toy_scale alpha a + toy_scale beta b)
                  (take (glob_rows M) (v @ replicate (glob_rows M) 0)) y),
      relax_new = (\<lambda>A. ()),
      apply_pre = toy_relax,
      apply_post = toy_relax,
      transfer_operators =
        (\<lambda>A. (toy_matrix (glob_rows A) (entries A) 0, toy_matrix (entries A) (glob_rows A) 0)),
      coarse_operator = (\<lambda>A P R. toy_matrix (glob_cols P) (glob_cols P) (glob_cols P div 2))\<rparr>"

definition no_vecs :: "int vecs" where
  "no_vecs = (\<lambda>r. [])"


definition toy_fine :: "(nat, unit) level" where
  "toy_fine =
     \<lparr>level_A = toy_matrix 4 4 2,
      level_P = Some (toy_matrix 4 2 0), level_R = Some (toy_matrix 2 4 0),
      level_f = Lvl_f 0, level_u = Lvl_u 0, level_t = Lvl_t 0,
      level_relax = (), on_backend = True\<rparr>"

definition toy_coarse :: "(nat, unit) level" where
  "toy_coarse =
     \<lparr>level_A = toy_matrix 2 2 1, level_P = None, level_R = None,
      level_f = Lvl_f 1, level_u = Lvl_u 1, level_t = Lvl_t 1,
      level_relax = (), on_backend = True\<rparr>"

definition toy_state :: "(int, nat, unit) state" where
  "toy_state =
     \<lparr>vecs = (\<lambda>r. [0, 0])(Arg 0 := [8, 4, 2, 6], Arg 1 := [1, 1, 1, 1],
                           Lvl_f 0 := [0, 0, 0, 0], Lvl_u 0 := [0, 0, 0, 0], Lvl_t 0 := [0, 0, 0, 0]),
      calls = []\<rparr>"

definition toy_prm2 :: params where
  "toy_prm2 = params_default\<lparr>coarse_enough := 2, npre := 2, ncycle := 2\<rparr>"

definition toy_pass :: "(nat, unit) call list" where
  "toy_pass =
     [Relax_pre () (toy_matrix 4 4 2) (Arg 0) (Arg 1) (Lvl_t 0),
      Relax_pre () (toy_matrix 4 4 2) (Arg 0) (Arg 1) (Lvl_t 0),
      Residual (Arg 0) (toy_matrix 4 4 2) (Arg 1) (Lvl_t 0),
      Spmv Scalar_identity (toy_matrix 2 4 0) (Lvl_t 0) Scalar_zero (Lvl_f 1),
      Clear (Lvl_u 1),
      Relax_pre () (toy_matrix 2 2 1) (Lvl_f 1) (Lvl_u 1) (Lvl_t 1),
      Relax_post () (toy_matrix 2 2 1) (Lvl_f 1) (Lvl_u 1) (Lvl_t 1),
      Spmv Scalar_identity (toy_matrix 4 2 0) (Lvl_u 1) Scalar_identity (Arg 1),
      Relax_post () (toy_matrix 4 4 2) (Arg 0) (Arg 1) (Lvl_t 0)]"

definition toy_amg :: "(nat, unit) amg" where
  "toy_amg = \<lparr>amg_prm = toy_prm2\<lparr>pre_cycles := 2\<rparr>, amg_levels = [toy_fine, toy_coarse]\<rparr>"

section \<open>Auxiliary facts\<close>

subsection \<open>Loops and sequences of calls\<close>

lemma and_then_assoc: "and_then (and_then r k) k' = and_then r (\<lambda>v. and_then (k v) k')"
  by (cases r) simp_all

lemma and_then_Inr [simp]: "and_then r Inr = r"
  by (cases r) simp_all

lemma iterate_m_front: "iterate_m (Suc k) body s = and_then (body s) (iterate_m k body)"
proof (induction k)
  case 0
  show ?case by simp
next
  case (Suc k)
  have "iterate_m (Suc (Suc k)) body s = and_then (iterate_m (Suc k) body s) body" by simp
  also have "\<dots> = and_then (and_then (body s) (iterate_m k body)) body" using Suc by simp
  also have "\<dots> = and_then (body s) (\<lambda>v. and_then (iterate_m k body v) body)"
    by (rule and_then_assoc)
  also have "(\<lambda>v. and_then (iterate_m k body v) body) = iterate_m (Suc k) body"
    by (rule ext) simp
  finally show ?case .
qed

lemma for_loop_iterate_from: "for_loop i n body s = iterate_m (n - i) body s"
proof (induction i n body s rule: for_loop.induct)
  case (1 i n body s)
  show ?case
  proof (cases "i < n")
    case True
    then have d: "n - i = Suc (n - Suc i)" by simp
    have "for_loop i n body s = and_then (body s) (for_loop (Suc i) n body)"
      using True by (simp add: for_loop.simps [of i])
    also have "\<dots> = and_then (body s) (iterate_m (n - Suc i) body)"
      using 1 [OF True] by (cases "body s") simp_all
    also have "\<dots> = iterate_m (n - i) body s"
      unfolding d by (rule iterate_m_front [symmetric])
    finally show ?thesis .
  next
    case False
    then show ?thesis by (simp add: for_loop.simps [of i])
  qed
qed

lemma for_loop_iterate: "for_loop 0 n body s = iterate_m n body s"
  using for_loop_iterate_from [of 0 n body s] by simp

lemma run_Nil [simp]: "run co [] s = s"
  by (simp add: run_def)

lemma run_Cons [simp]: "run co (c # tr) s = run co tr (perform co c s)"
  by (simp add: run_def)

lemma run_append: "run co (tr @ tr') s = run co tr' (run co tr s)"
  by (simp add: run_def)

lemma run_replicate_Suc: "run co (replicate (Suc k) c) s = perform co c (run co (replicate k c) s)"
proof (induction k arbitrary: s)
  case 0
  show ?case by simp
next
  case (Suc k)
  have "run co (replicate (Suc (Suc k)) c) s = run co (replicate (Suc k) c) (perform co c s)"
    by simp
  also have "\<dots> = perform co c (run co (replicate k c) (perform co c s))"
    by (rule Suc)
  also have "\<dots> = perform co c (run co (replicate (Suc k) c) s)"
    by simp
  finally show ?case .
qed

lemma iterate_m_pure: "iterate_m k (\<lambda>s. Inr (perform co c s)) s = Inr (run co (replicate k c) s)"
proof (induction k)
  case 0
  show ?case by simp
next
  case (Suc k)
  then show ?case by (simp add: run_replicate_Suc del: replicate.simps run_Cons)
qed

lemma concat_replicate_Suc: "concat (replicate (Suc k) tr) = concat (replicate k tr) @ tr"
  by (induction k) simp_all

lemma iterate_m_run: "iterate_m k (\<lambda>s. Inr (run co tr s)) s = Inr (run co (concat (replicate k tr)) s)"
proof (induction k)
  case 0
  show ?case by simp
next
  case (Suc k)
  show ?case
    unfolding concat_replicate_Suc using Suc by (simp add: run_append)
qed

lemma cycle_step:
  assumes "level_P lvl = Some p" and "level_R lvl = Some r"
  shows "cycle co prm (lvl # nxt # rest) rhs x s =
    iterate_m (unat (ncycle prm))
      (\<lambda>s0. and_then
         (cycle co prm (nxt # rest) (level_f nxt) (level_u nxt)
            (perform co (Clear (level_u nxt))
               (perform co (Spmv Scalar_identity r (level_t lvl) Scalar_zero (level_f nxt))
                  (perform co (Residual rhs (level_A lvl) x (level_t lvl))
                     (run co
                        (replicate (unat (npre prm))
                           (Relax_pre (level_relax lvl) (level_A lvl) rhs x (level_t lvl)))
                        s0)))))
         (\<lambda>s5. Inr (run co
                      (replicate (unat (npost prm))
                         (Relax_post (level_relax lvl) (level_A lvl) rhs x (level_t lvl)))
                      (perform co (Spmv Scalar_identity p (level_u nxt) Scalar_identity x) s5))))
      s"
  by (simp add: for_loop_iterate iterate_m_pure assms Let_def)

lemma cycle_refines:
  "levels_linked lv \<Longrightarrow> cycle co prm lv rhs x s = Inr (run co (spec_cycle prm lv rhs x) s)"
proof (induction lv arbitrary: rhs x s rule: levels_linked.induct)
  case 1
  then show ?case by simp
next
  case (2 lvl)
  show ?case by simp
next
  case (3 lvl nxt rest)
  from "3.prems" obtain p r where pr: "level_P lvl = Some p" "level_R lvl = Some r"
    and linked: "levels_linked (nxt # rest)"
    by auto
  note IH = "3.IH" [OF linked]
  have "cycle co prm (lvl # nxt # rest) rhs x s =
      iterate_m (unat (ncycle prm))
        (\<lambda>s0. Inr (run co
           (replicate (unat (npre prm))
              (Relax_pre (level_relax lvl) (level_A lvl) rhs x (level_t lvl))
            @ [Residual rhs (level_A lvl) x (level_t lvl),
               Spmv Scalar_identity r (level_t lvl) Scalar_zero (level_f nxt),
               Clear (level_u nxt)]
            @ spec_cycle prm (nxt # rest) (level_f nxt) (level_u nxt)
            @ [Spmv Scalar_identity p (level_u nxt) Scalar_identity x]
            @ replicate (unat (npost prm))
                (Relax_post (level_relax lvl) (level_A lvl) rhs x (level_t lvl)))
           s0))
        s"
    unfolding cycle_step [OF pr] by (simp add: IH run_append)
  then show ?case
    by (simp add: pr iterate_m_run)
qed

lemma calls_perform: "calls (perform co c s) = calls s @ [c]"
  by (simp add: perform_def)

lemma vecs_perform: "vecs (perform co c s) = exec co c (vecs s)"
  by (simp add: perform_def)

lemma iterate_m_id: "(\<And>v. body v = Inr v) \<Longrightarrow> iterate_m k body s = Inr s"
  by (induction k) simp_all

lemma calls_run: "calls (run co tr s) = calls s @ tr"
  by (induction tr arbitrary: s) (simp_all add: calls_perform)

lemma spec_cycle_clears:
  "Clear y \<in> set (spec_cycle prm lv rhs x) \<Longrightarrow> y \<in> level_u ` set (tl lv)"
proof (induction prm lv rhs x rule: spec_cycle.induct)
  case (1 prm rhs x)
  then show ?case by simp
next
  case (2 prm L rhs x)
  then show ?case by simp
next
  case (3 prm L L' rest rhs x)
  show ?case
  proof (cases "level_P L")
    case None
    with "3.prems" show ?thesis by simp
  next
    case (Some p)
    note P = Some
    show ?thesis
    proof (cases "level_R L")
      case None
      with P "3.prems" show ?thesis by simp
    next
      case (Some r)
      from "3.prems" P Some
      have "y = level_u L' \<or> Clear y \<in> set (spec_cycle prm (L' # rest) (level_f L') (level_u L'))"
        by (auto split: if_splits)
      then show ?thesis
      proof
        assume "y = level_u L'"
        then show ?thesis by simp
      next
        assume "Clear y \<in> set (spec_cycle prm (L' # rest) (level_f L') (level_u L'))"
        then have "y \<in> level_u ` set (tl (L' # rest))"
          using "3.IH" P Some by simp
        then show ?thesis by auto
      qed
    qed
  qed
qed

subsection \<open>The loop of init\<close>

lemma chain_ok_snoc:
  "chain_ok co (lv @ [l]) = (lv = [] \<or> (chain_ok co lv \<and> linked_to co (last lv) (level_A l)))"
proof (induction lv rule: chain_ok.induct)
  case (1 co)
  show ?case by simp
next
  case (2 co l0)
  show ?case by simp
next
  case (3 co l0 l1 ls)
  then show ?case by auto
qed

lemma level_new_fields:
  "level_A (fst (level_new co A k vs)) = A"
  "level_P (fst (level_new co A k vs)) = None"
  "level_R (fst (level_new co A k vs)) = None"
  by (simp_all add: level_new_def)

lemma step_down_fields:
  "level_A (fst (step_down co l)) = level_A l"
  "level_P (fst (step_down co l)) = Some (fst (transfer_operators co (level_A l)))"
  "level_R (fst (step_down co l)) = Some (snd (transfer_operators co (level_A l)))"
  by (simp_all add: step_down_def Let_def split: prod.splits)

lemma step_down_result:
  "snd (step_down co l) =
     (if glob_cols (fst (transfer_operators co (level_A l))) = 0 then None
      else Some (coarse_operator co (level_A l)
                   (fst (transfer_operators co (level_A l))) (snd (transfer_operators co (level_A l)))))"
  by (simp add: step_down_def Let_def split: prod.splits)

lemma move_to_backend_fields [simp]:
  "level_A (move_to_backend l) = level_A l"
  "level_P (move_to_backend l) = level_P l"
  "level_R (move_to_backend l) = level_R l"
  by (simp_all add: move_to_backend_def)

lemma linked_to_move [simp]: "linked_to co (move_to_backend l) A' = linked_to co l A'"
  by (simp add: linked_to_def)

lemma init_loop_unfold:
  "init_loop co prm A levels vs =
     (if glob_rows A > unat (coarse_enough prm) \<and> length levels < unat (max_levels prm) then
        if Suc (length levels) \<ge> unat (max_levels prm)
        then (Some A, levels @ [fst (level_new co A (length levels) vs)],
              snd (level_new co A (length levels) vs))
        else
          (case snd (step_down co (fst (level_new co A (length levels) vs))) of
             None \<Rightarrow> (None,
                       levels @ [move_to_backend (fst (step_down co (fst (level_new co A (length levels) vs))))],
                       snd (level_new co A (length levels) vs))
           | Some A'' \<Rightarrow>
               init_loop co prm A''
                 (levels @ [move_to_backend (fst (step_down co (fst (level_new co A (length levels) vs))))])
                 (snd (level_new co A (length levels) vs)))
      else (Some A, levels, vs))"
  by (subst init_loop.simps) (simp split: prod.splits option.splits)

lemma init_built:
  assumes "init_finish co (init_loop co prm A levels vs) = (lv, vs')"
    and "length lv \<le> unat (max_levels prm)"
    and "chain_ok co levels"
    and "levels \<noteq> [] \<Longrightarrow> linked_to co (last levels) A"
  shows "chain_ok co lv \<and> lv \<noteq> [] \<and> (last_plain (last lv) \<or> last_degenerate (last lv))"
  using assms
proof (induction co prm A levels vs rule: init_loop.induct)
  case (1 co prm A levels vs)
  let ?l = "fst (level_new co A (length levels) vs)"
  let ?vs1 = "snd (level_new co A (length levels) vs)"
  let ?l' = "fst (step_down co ?l)"
  have link: "levels = [] \<or> (chain_ok co levels \<and> linked_to co (last levels) A)"
    using "1.prems"(3,4) by blast
  show ?case
  proof (cases "glob_rows A > unat (coarse_enough prm) \<and> length levels < unat (max_levels prm)")
    case False
    then have "init_loop co prm A levels vs = (Some A, levels, vs)"
      by (auto simp add: init_loop_unfold [of co prm A levels vs])
    with "1.prems"(1) have lv: "lv = levels @ [move_to_backend ?l]"
      by (simp add: init_finish_def split: prod.splits)
    show ?thesis
      unfolding lv using link
      by (simp add: chain_ok_snoc level_new_fields last_plain_def)
  next
    case True
    note loop = True
    show ?thesis
    proof (cases "Suc (length levels) \<ge> unat (max_levels prm)")
      case True
      with loop have "init_loop co prm A levels vs = (Some A, levels @ [?l], ?vs1)"
        by (simp add: init_loop_unfold [of co prm A levels vs])
      with "1.prems"(1) have "length lv = Suc (Suc (length levels))"
        by (auto simp add: init_finish_def split: prod.splits)
      with True "1.prems"(2) show ?thesis by simp
    next
      case False
      note nobreak = False
      show ?thesis
      proof (cases "snd (step_down co ?l)")
        case None
        with loop nobreak have "init_loop co prm A levels vs = (None, levels @ [move_to_backend ?l'], ?vs1)"
          by (simp add: init_loop_unfold [of co prm A levels vs])
        with "1.prems"(1) have lv: "lv = levels @ [move_to_backend ?l']"
          by (simp add: init_finish_def)
        from None have "glob_cols (fst (transfer_operators co A)) = 0"
          by (simp add: step_down_result level_new_fields split: if_splits)
        then have "last_degenerate (move_to_backend ?l')"
          by (simp add: last_degenerate_def step_down_fields level_new_fields)
        then show ?thesis
          unfolding lv using link
          by (simp add: chain_ok_snoc step_down_fields level_new_fields)
      next
        case (Some A'')
        with loop nobreak have unf: "init_loop co prm A levels vs =
            init_loop co prm A'' (levels @ [move_to_backend ?l']) ?vs1"
          by (simp add: init_loop_unfold [of co prm A levels vs])
        have A'': "linked_to co ?l' A''"
          using Some
          by (simp add: linked_to_def step_down_result step_down_fields level_new_fields split: if_splits)
        have ch: "chain_ok co (levels @ [move_to_backend ?l'])"
          using link by (simp add: chain_ok_snoc step_down_fields level_new_fields)
        obtain l0 vs0 where ln: "level_new co A (length levels) vs = (l0, vs0)"
          by (cases "level_new co A (length levels) vs")
        obtain l1 where sd: "step_down co l0 = (l1, Some A'')"
          using Some ln by (cases "step_down co l0") simp
        have "chain_ok co lv \<and> lv \<noteq> [] \<and> (last_plain (last lv) \<or> last_degenerate (last lv))"
        proof (rule "1.IH" [OF loop ln [symmetric] _ sd [symmetric] refl])
          show "\<not> unat (max_levels prm) \<le> length (levels @ [l0])"
            using nobreak by simp
          show "init_finish co (init_loop co prm A'' (levels @ [move_to_backend l1]) vs0) = (lv, vs')"
            using "1.prems"(1) unf ln sd by simp
          show "length lv \<le> unat (max_levels prm)" by (rule "1.prems"(2))
          show "chain_ok co (levels @ [move_to_backend l1])"
            using ch ln sd by simp
          show "linked_to co (last (levels @ [move_to_backend l1])) A''"
            using A'' ln sd by simp
        qed
        then show ?thesis .
      qed
    qed
  qed
qed



subsection \<open>The cycle on levels with and without transfer operators\<close>

text \<open>
  Where the level has \<open>P\<close> and \<open>R\<close>, one invocation of \<open>cycle\<close> is \<open>ncycle\<close> passes
  of the seven steps, each on the state the previous one left.
\<close>

lemma cycle_pass:
  assumes "level_P lvl = Some p" and "level_R lvl = Some r"
  shows "cycle co prm (lvl # nxt # rest) rhs x s =
    iterate_m (unat (ncycle prm))
      (\<lambda>s0. and_then
         (cycle co prm (nxt # rest) (level_f nxt) (level_u nxt)
            (run co
               (replicate (unat (npre prm))
                  (Relax_pre (level_relax lvl) (level_A lvl) rhs x (level_t lvl))
                @ [Residual rhs (level_A lvl) x (level_t lvl),
                   Spmv Scalar_identity r (level_t lvl) Scalar_zero (level_f nxt),
                   Clear (level_u nxt)])
               s0))
         (\<lambda>s5. Inr (run co
                      (Spmv Scalar_identity p (level_u nxt) Scalar_identity x
                       # replicate (unat (npost prm))
                           (Relax_post (level_relax lvl) (level_A lvl) rhs x (level_t lvl)))
                      s5)))
      s"
  unfolding cycle_step [OF assms] by (simp add: run_append)

text \<open>The same on a concrete hierarchy of two levels, with two passes.\<close>

lemma cycle_pass_example:
  "level_P toy_fine = Some (toy_matrix 4 2 0) \<and> level_R toy_fine = Some (toy_matrix 2 4 0) \<and>
   map_sum id calls (cycle toy toy_prm2 [toy_fine, toy_coarse] (Arg 0) (Arg 1) toy_state) =
     Inr (toy_pass @ toy_pass)"
proof -
  have p: "level_P toy_fine = Some (toy_matrix 4 2 0)" by (simp add: toy_fine_def)
  have r: "level_R toy_fine = Some (toy_matrix 2 4 0)" by (simp add: toy_fine_def)
  have n: "unat (npre toy_prm2) = Suc (Suc 0)" "unat (ncycle toy_prm2) = Suc (Suc 0)"
    "unat (npost toy_prm2) = Suc 0"
    by (simp_all add: toy_prm2_def params_default_def)
  have "calls toy_state = []" by (simp add: toy_state_def)
  then show ?thesis
    unfolding cycle_pass [OF p r]
    by (simp add: p r n calls_perform toy_fine_def toy_coarse_def toy_pass_def)
qed

text \<open>
  On a hierarchy whose levels have their transfer operators the public
  \<open>cycle\<close> performs the calls of one multilevel cycle and clears no vector but
  the \<open>u\<close> of the coarser levels.
\<close>

lemma cycle_public_refines:
  assumes "levels_linked (amg_levels a)"
  shows "cycle_public co a rhs x s =
           Inr (run co (spec_cycle (amg_prm a) (amg_levels a) rhs x) s) \<and>
         (x \<notin> level_u ` set (tl (amg_levels a)) \<longrightarrow>
            Clear x \<notin> set (spec_cycle (amg_prm a) (amg_levels a) rhs x))"
  using assms spec_cycle_clears [of x "amg_prm a" "amg_levels a" rhs x]
  by (auto simp add: cycle_public_def cycle_refines)

text \<open>
  Where the level has no \<open>R\<close> and a pass is made, \<open>cycle\<close> fails at the
  restriction, after the pre-relaxations and the residual.
\<close>

lemma cycle_null_restriction:
  assumes "level_R lvl = None" and "ncycle prm \<noteq> 0"
  shows "cycle co prm (lvl # nxt # rest) rhs x s = Inl Null_pointer"
proof -
  from assms(2) have "0 < unat (ncycle prm)" by (simp add: unat_gt_0)
  then obtain k where k: "unat (ncycle prm) = Suc k" by (cases "unat (ncycle prm)") simp_all
  show ?thesis
    by (simp add: for_loop_iterate k iterate_m_front iterate_m_pure assms(1) Let_def
        del: iterate_m.simps)
qed

text \<open>
  A built hierarchy with no more than \<open>max_levels\<close> levels has the transfer
  operators the cycle needs, so the public \<open>cycle\<close> returns on it.
\<close>

lemma chain_ok_linked: "chain_ok co lv \<Longrightarrow> lv \<noteq> [] \<Longrightarrow> levels_linked lv"
  by (induction lv rule: levels_linked.induct) (simp_all add: linked_to_def)

lemma built_levels_linked:
  assumes "init co prm A vs = Inr (lv, vs')" and "length lv \<le> unat (max_levels prm)"
  shows "levels_linked lv"
proof -
  from assms(1) have fin: "init_finish co (init_loop co prm A [] vs) = (lv, vs')"
    by (simp add: init_def split: if_splits)
  have "chain_ok co lv \<and> lv \<noteq> [] \<and> (last_plain (last lv) \<or> last_degenerate (last lv))"
    by (rule init_built [OF fin assms(2)]) simp_all
  then show ?thesis using chain_ok_linked [of co lv] by blast
qed

lemma built_cycle_public:
  assumes "init co prm A vs = Inr (lv, vs')" and "length lv \<le> unat (max_levels prm)"
  shows "cycle_public co \<lparr>amg_prm = prm, amg_levels = lv\<rparr> rhs x s =
           Inr (run co (spec_cycle prm lv rhs x) s)"
  using built_levels_linked [OF assms] by (simp add: cycle_public_def cycle_refines)

section \<open>The claims\<close>

subsection \<open>The cycle engine\<close>

text \<open>
  C1.  At every level that is not the last, one invocation of \<open>cycle\<close> is meant
  to repeat \<open>ncycle\<close> times the pre-relaxations, the residual, the restriction
  by \<open>R\<close>, the clearing of the next \<open>u\<close>, the cycle at the next level, the
  correction by \<open>P\<close> and the post-relaxations.  The hierarchy built for
  \<open>max_levels = 1\<close> and a matrix of 5000 rows has two levels, and the first of
  them has no \<open>R\<close>: with \<open>ncycle = 1\<close>, \<open>cycle\<close> at that level fails at the
  restriction and performs none of the later steps.
\<close>

theorem cycle_fails_at_unlinked_level:
  "length (levels_of (init toy (params_default\<lparr>max_levels := 1\<rparr>) (toy_matrix 5000 5000 2400) no_vecs)) = 2 \<and>
   ncycle (params_default\<lparr>max_levels := 1\<rparr>) = 1 \<and>
   cycle toy (params_default\<lparr>max_levels := 1\<rparr>)
     (levels_of (init toy (params_default\<lparr>max_levels := 1\<rparr>) (toy_matrix 5000 5000 2400) no_vecs))
     (Arg 0) (Arg 1) toy_state = Inl Null_pointer"
proof -
  obtain l0 l1 where lv:
      "levels_of (init toy (params_default\<lparr>max_levels := 1\<rparr>) (toy_matrix 5000 5000 2400) no_vecs) = [l0, l1]"
    and r: "level_R l0 = None"
    by (simp add: init_def init_finish_def init_loop.simps level_new_def toy_matrix_def
        params_default_def levels_of_def)
  have n: "ncycle (params_default\<lparr>max_levels := 1\<rparr>) = 1"
    by (simp add: params_default_def)
  then have "ncycle (params_default\<lparr>max_levels := 1\<rparr>) \<noteq> 0" by simp
  from cycle_null_restriction [OF r this] lv n show ?thesis by simp
qed

text \<open>
  C9.  For every \<open>rhs\<close> and \<open>x\<close> the public \<open>cycle(rhs, x)\<close> is meant to run one
  multilevel cycle from the finest level on the \<open>x\<close> it is given.  On the
  preconditioner constructed for \<open>max_levels = 1\<close> and a matrix of 5000 rows,
  which has two levels, it fails at the restriction of the finest level and
  no cycle is completed.
\<close>

theorem cycle_public_fails_at_bound:
  "\<not> isl (amg_new toy (params_default\<lparr>max_levels := 1\<rparr>) (toy_matrix 5000 5000 2400) no_vecs) \<and>
   length (amg_levels (fst (projr (amg_new toy (params_default\<lparr>max_levels := 1\<rparr>)
                                     (toy_matrix 5000 5000 2400) no_vecs)))) = 2 \<and>
   cycle_public toy
     (fst (projr (amg_new toy (params_default\<lparr>max_levels := 1\<rparr>) (toy_matrix 5000 5000 2400) no_vecs)))
     (Arg 0) (Arg 1) toy_state = Inl Null_pointer"
proof -
  obtain l0 l1 vs' where a:
      "amg_new toy (params_default\<lparr>max_levels := 1\<rparr>) (toy_matrix 5000 5000 2400) no_vecs =
         Inr (\<lparr>amg_prm = params_default\<lparr>max_levels := 1\<rparr>, amg_levels = [l0, l1]\<rparr>, vs')"
    and r: "level_R l0 = None"
    by (simp add: amg_new_def init_def init_finish_def init_loop.simps level_new_def toy_matrix_def
        params_default_def)
  have "ncycle (params_default\<lparr>max_levels := 1\<rparr>) \<noteq> 0"
    by (simp add: params_default_def)
  from cycle_null_restriction [OF r this] a show ?thesis
    by (simp add: cycle_public_def)
qed

text \<open>
  C10.  On a hierarchy of at least two levels with \<open>ncycle = 0\<close>, \<open>cycle(rhs, x)\<close>
  returns the state it was given: no call is performed and no vector changes.
  Then \<open>apply(rhs, x)\<close> with \<open>pre_cycles > 0\<close> performs the clearing of \<open>x\<close> and
  nothing else, and \<open>x\<close> is zero afterwards whatever \<open>rhs\<close> is.
\<close>

theorem zero_ncycle_no_work:
  assumes "ncycle (amg_prm a) = 0" and "amg_levels a = lvl # nxt # rest"
  shows "cycle_public co a rhs x s = Inr s \<and>
         (pre_cycles (amg_prm a) \<noteq> 0 \<longrightarrow>
            apply_amg co a rhs x s = Inr (perform co (Clear x) s) \<and>
            calls (perform co (Clear x) s) = calls s @ [Clear x] \<and>
            vecs (perform co (Clear x) s) x = replicate (length (vecs s x)) 0)"
proof -
  have cyc: "cycle co (amg_prm a) (amg_levels a) rhs x v = Inr v" for v
    using assms by (simp add: for_loop_iterate)
  then have "apply_amg co a rhs x s = Inr (perform co (Clear x) s)"
    if "pre_cycles (amg_prm a) \<noteq> 0"
    using that by (simp add: apply_amg_def for_loop_iterate iterate_m_id)
  with cyc show ?thesis
    by (simp add: cycle_public_def calls_perform vecs_perform clear_def)
qed

theorem zero_ncycle_no_work_witness:
  "ncycle (amg_prm (toy_amg\<lparr>amg_prm := toy_prm2\<lparr>ncycle := 0\<rparr>\<rparr>)) = 0 \<and>
   amg_levels (toy_amg\<lparr>amg_prm := toy_prm2\<lparr>ncycle := 0\<rparr>\<rparr>) = toy_fine # toy_coarse # [] \<and>
   pre_cycles (amg_prm (toy_amg\<lparr>amg_prm := toy_prm2\<lparr>ncycle := 0\<rparr>\<rparr>)) \<noteq> 0 \<and>
   cycle_public toy (toy_amg\<lparr>amg_prm := toy_prm2\<lparr>ncycle := 0\<rparr>\<rparr>) (Arg 0) (Arg 1) toy_state
     = Inr toy_state \<and>
   map_sum id (\<lambda>s. (vecs s (Arg 1), calls s))
     (apply_amg toy (toy_amg\<lparr>amg_prm := toy_prm2\<lparr>ncycle := 0\<rparr>\<rparr>) (Arg 0) (Arg 1) toy_state)
     = Inr ([0, 0, 0, 0], [Clear (Arg 1)])"
proof -
  have h: "ncycle (amg_prm (toy_amg\<lparr>amg_prm := toy_prm2\<lparr>ncycle := 0\<rparr>\<rparr>)) = 0"
    "amg_levels (toy_amg\<lparr>amg_prm := toy_prm2\<lparr>ncycle := 0\<rparr>\<rparr>) = toy_fine # toy_coarse # []"
    by (simp_all add: toy_amg_def)
  have p: "pre_cycles (amg_prm (toy_amg\<lparr>amg_prm := toy_prm2\<lparr>ncycle := 0\<rparr>\<rparr>)) \<noteq> 0"
    by (simp add: toy_prm2_def params_default_def)
  have v: "vecs toy_state (Arg 1) = [1, 1, 1, 1]" "calls toy_state = []"
    by (simp_all add: toy_state_def)
  from zero_ncycle_no_work [OF h, of toy "Arg 0" "Arg 1" toy_state] h p v show ?thesis
    by simp
qed

subsection \<open>The preconditioner\<close>



text \<open>
  C4.  With \<open>pre_cycles = 0\<close>, \<open>apply(rhs, x)\<close> performs one call, the copy of
  \<open>rhs\<close> into \<open>x\<close>, and no cycle or relaxation: afterwards \<open>x\<close> equals \<open>rhs\<close>
  and every other vector is as before.
\<close>

theorem apply_zero_pre_cycles_copies:
  assumes "pre_cycles (amg_prm a) = 0"
  shows "apply_amg co a rhs x s =
           Inr \<lparr>vecs = (vecs s)(x := vecs s rhs), calls = calls s @ [Copy rhs x]\<rparr> \<and>
         ((vecs s)(x := vecs s rhs)) x = ((vecs s)(x := vecs s rhs)) rhs"
  using assms by (simp add: apply_amg_def perform_def copy_def)

theorem apply_zero_pre_cycles_copies_witness:
  "pre_cycles (amg_prm (toy_amg\<lparr>amg_prm := toy_prm2\<lparr>pre_cycles := 0\<rparr>\<rparr>)) = 0 \<and>
   map_sum id (\<lambda>s. (vecs s (Arg 1), vecs s (Arg 0), calls s))
     (apply_amg toy (toy_amg\<lparr>amg_prm := toy_prm2\<lparr>pre_cycles := 0\<rparr>\<rparr>) (Arg 0) (Arg 1) toy_state) =
     Inr ([8, 4, 2, 6], [8, 4, 2, 6], [Copy (Arg 0) (Arg 1)])"
proof -
  have h: "pre_cycles (amg_prm (toy_amg\<lparr>amg_prm := toy_prm2\<lparr>pre_cycles := 0\<rparr>\<rparr>)) = 0"
    by simp
  from apply_zero_pre_cycles_copies [OF h, of toy "Arg 0" "Arg 1" toy_state] show ?thesis
    by (simp add: toy_state_def)
qed

subsection \<open>The hierarchy\<close>

text \<open>
  C5.  For a square matrix whose global row count is at most \<open>coarse_enough\<close>
  the built hierarchy has exactly one level, the one made from the matrix.
  At the last level of any hierarchy, \<open>cycle\<close> performs one pre-relaxation and
  then one post-relaxation and nothing else, whatever \<open>npre\<close>, \<open>npost\<close> and
  \<open>ncycle\<close> are.
\<close>

theorem coarse_enough_single_level:
  "(glob_rows A = glob_cols A \<and> glob_rows A \<le> unat (coarse_enough prm) \<longrightarrow>
      init co prm A vs =
        Inr ([move_to_backend (fst (level_new co A 0 vs))], snd (level_new co A 0 vs))) \<and>
   cycle co prm' [lvl] rhs x s =
     Inr (run co [Relax_pre (level_relax lvl) (level_A lvl) rhs x (level_t lvl),
                  Relax_post (level_relax lvl) (level_A lvl) rhs x (level_t lvl)] s) \<and>
   calls (run co [Relax_pre (level_relax lvl) (level_A lvl) rhs x (level_t lvl),
                  Relax_post (level_relax lvl) (level_A lvl) rhs x (level_t lvl)] s) =
     calls s @ [Relax_pre (level_relax lvl) (level_A lvl) rhs x (level_t lvl),
                Relax_post (level_relax lvl) (level_A lvl) rhs x (level_t lvl)]"
proof -
  have "init co prm A vs =
        Inr ([move_to_backend (fst (level_new co A 0 vs))], snd (level_new co A 0 vs))"
    if "glob_rows A = glob_cols A" "glob_rows A \<le> unat (coarse_enough prm)"
  proof -
    have "init_loop co prm A [] vs = (Some A, [], vs)"
      using that(2) by (auto simp add: init_loop_unfold [of co prm A "[]" vs])
    then show ?thesis
      using that(1) by (simp add: init_def init_finish_def split: prod.splits)
  qed
  then show ?thesis by (simp add: calls_perform)
qed

theorem coarse_enough_single_level_witness:
  "glob_rows (toy_matrix 1000 1000 500) = glob_cols (toy_matrix 1000 1000 500) \<and>
   glob_rows (toy_matrix 1000 1000 500) \<le> unat (coarse_enough params_default) \<and>
   length (levels_of (init toy params_default (toy_matrix 1000 1000 500) no_vecs)) = 1 \<and>
   map_sum id calls (cycle toy toy_prm2 [toy_coarse] (Arg 0) (Arg 1) toy_state) =
     Inr [Relax_pre () (toy_matrix 2 2 1) (Arg 0) (Arg 1) (Lvl_t 1),
          Relax_post () (toy_matrix 2 2 1) (Arg 0) (Arg 1) (Lvl_t 1)]"
proof -
  have h: "glob_rows (toy_matrix 1000 1000 500) = glob_cols (toy_matrix 1000 1000 500)"
    "glob_rows (toy_matrix 1000 1000 500) \<le> unat (coarse_enough params_default)"
    by (simp_all add: toy_matrix_def params_default_def)
  have c: "calls toy_state = []" by (simp add: toy_state_def)
  from coarse_enough_single_level
         [of "toy_matrix 1000 1000 500" params_default toy no_vecs toy_prm2 toy_coarse "Arg 0" "Arg 1" toy_state]
       h c
  show ?thesis
    by (simp add: levels_of_def toy_coarse_def)
qed

text \<open>
  C6.  When the loop of \<open>init\<close> takes a coarsening step at the matrix \<open>A\<close> (the
  matrix is above \<open>coarse_enough\<close> and the level made from it does not reach
  \<open>max_levels\<close>) and the prolongation of that step has no global columns,
  construction returns a hierarchy and not an error: the levels built so far
  followed by the level of \<open>A\<close>, which is the last one.
\<close>

theorem degenerate_coarsening_stops:
  assumes "unat (coarse_enough prm) < glob_rows A"
    and "Suc (length levels) < unat (max_levels prm)"
    and "glob_cols (fst (transfer_operators co A)) = 0"
  shows "init_finish co (init_loop co prm A levels vs) =
           (levels @ [move_to_backend (fst (step_down co (fst (level_new co A (length levels) vs))))],
            snd (level_new co A (length levels) vs)) \<and>
         level_A (move_to_backend (fst (step_down co (fst (level_new co A (length levels) vs))))) = A \<and>
         (levels = [] \<and> glob_rows A = glob_cols A \<longrightarrow>
            init co prm A vs =
              Inr ([move_to_backend (fst (step_down co (fst (level_new co A 0 vs))))],
                   snd (level_new co A 0 vs)))"
proof -
  have "snd (step_down co (fst (level_new co A (length levels) vs))) = None"
    using assms(3) by (simp add: step_down_result level_new_fields)
  with assms(1,2) have "init_loop co prm A levels vs =
      (None, levels @ [move_to_backend (fst (step_down co (fst (level_new co A (length levels) vs))))],
       snd (level_new co A (length levels) vs))"
    by (simp add: init_loop_unfold [of co prm A levels vs])
  then have fin: "init_finish co (init_loop co prm A levels vs) =
           (levels @ [move_to_backend (fst (step_down co (fst (level_new co A (length levels) vs))))],
            snd (level_new co A (length levels) vs))"
    by (simp add: init_finish_def)
  then show ?thesis
    by (auto simp add: init_def step_down_fields level_new_fields)
qed

theorem degenerate_coarsening_stops_witness:
  "unat (coarse_enough params_default) < glob_rows (toy_matrix 5000 5000 0) \<and>
   Suc (length ([] :: (nat, unit) level list)) < unat (max_levels params_default) \<and>
   glob_cols (fst (transfer_operators toy (toy_matrix 5000 5000 0))) = 0 \<and>
   map level_A (levels_of (init toy params_default (toy_matrix 5000 5000 0) no_vecs)) =
     [toy_matrix 5000 5000 0]"
proof -
  have h: "unat (coarse_enough params_default) < glob_rows (toy_matrix 5000 5000 0)"
    "Suc (length ([] :: (nat, unit) level list)) < unat (max_levels params_default)"
    "glob_cols (fst (transfer_operators toy (toy_matrix 5000 5000 0))) = 0"
    by (simp_all add: toy_matrix_def params_default_def toy_def)
  have sq: "glob_rows (toy_matrix 5000 5000 0) = glob_cols (toy_matrix 5000 5000 0)"
    by (simp add: toy_matrix_def)
  from degenerate_coarsening_stops [OF h, of no_vecs] sq h show ?thesis
    by (simp add: levels_of_def step_down_fields level_new_fields)
qed




text \<open>
  C2.  The number of levels is meant to stay within \<open>max_levels\<close>.  With
  \<open>max_levels = 1\<close> and a matrix of 5000 rows, above \<open>coarse_enough\<close>, the loop
  of \<open>init\<close> appends a level and leaves at the bound with the matrix still
  pending, and the statement after the loop appends a level for it again: the
  hierarchy has two levels.
\<close>

theorem init_exceeds_max_levels:
  "\<not> isl (init toy (params_default\<lparr>max_levels := 1\<rparr>) (toy_matrix 5000 5000 2400) no_vecs) \<and>
   length (levels_of (init toy (params_default\<lparr>max_levels := 1\<rparr>) (toy_matrix 5000 5000 2400) no_vecs)) = 2 \<and>
   unat (max_levels (params_default\<lparr>max_levels := 1\<rparr>)) = 1"
  by (simp add: init_def init_finish_def init_loop.simps level_new_def toy_matrix_def
      params_default_def levels_of_def)

text \<open>
  C8.  A matrix that is not square makes construction fail.  \<open>max_levels = 0\<close>
  is refused where parameters are read from a property tree, and only there:
  the constructor of the preconditioner takes a parameter set with
  \<open>max_levels = 0\<close> and builds a hierarchy of one level.
\<close>

theorem max_levels_zero_accepted:
  "init toy params_default (toy_matrix 5000 4999 2400) no_vecs =
     Inl (Precondition_failed ''Matrix should be square!'') \<and>
   params_ptree (Map.empty(''max_levels'' \<mapsto> 0)) =
     Inl (Precondition_failed ''max_levels should be positive'') \<and>
   \<not> isl (amg_new toy (params_default\<lparr>max_levels := 0\<rparr>) (toy_matrix 5000 5000 2400) no_vecs) \<and>
   length (levels_of (init toy (params_default\<lparr>max_levels := 0\<rparr>) (toy_matrix 5000 5000 2400) no_vecs)) = 1"
  by (simp add: params_ptree_def import_value_def amg_new_def init_def init_finish_def
      init_loop.simps level_new_def toy_matrix_def params_default_def levels_of_def)

end
